theory Spec2Isabelle
  imports Complex_Main
begin

section \<open>Sales assistant: decline templates, guarded chat turn and session store\<close>

text \<open>
  A shallow embedding of \<^verbatim>\<open>src/api.py\<close> (the response tables, the response handler, the
  intent scan, the guard configuration and the chat turn of the assistant) and of the
  session manager of \<^verbatim>\<open>src/fast_api.py\<close>.

  Python strings are modelled as \<^typ>\<open>string\<close>; every literal of the source is ASCII, and
  \<^verbatim>\<open>str.lower\<close> is modelled on ASCII letters. The third-party collaborators (the two
  guards and the retrieval chain) are parameters of the turn. The draws of the random
  module are parameters too: a natural number for each \<^verbatim>\<open>random.choice\<close> (reduced modulo
  the length of the sequence) and a boolean for the test \<^verbatim>\<open>random.random() < 0.3\<close>.
\<close>

subsection \<open>Response tables\<close>

definition DECLINE_RESPONSES :: "(string \<times> string list) list" where
  "DECLINE_RESPONSES = [
    (''confidential_info'', [
      ''I appreciate your curiosity, but that information is confidential and outside my area of expertise. However, I'm a refrigerator specialist! Let me help you find the perfect cooling solution for your needs. What capacity are you looking for?'',
      ''That's actually not something I have access to - my expertise is specifically in our refrigerator products. But here's what I CAN help you with: finding the ideal refrigerator for your space, budget, and lifestyle. What matters most to you - energy efficiency, capacity, or smart features?'',
      ''I'm not authorized to discuss internal company matters, but I'm your go-to person for everything refrigerator-related! Whether you need help comparing models, understanding features, or finding the best fit for your budget, I'm here. What brings you shopping for a refrigerator today?'',
      ''That falls outside my scope - I focus exclusively on helping customers find their perfect refrigerator. Think of me as your personal cooling consultant! Tell me about your kitchen space and family size, and I'll suggest some great options.'',
      ''I can't help with that particular request, but what I CAN do is match you with a refrigerator that'll make your life easier! Are you looking for something compact, family-sized, or perhaps a premium model with all the bells and whistles?''
    ]),
    (''pii_detected'', [
      ''I noticed some sensitive information in your message. For your privacy and security, I can't process requests containing personal details like that. But let's focus on finding you an amazing refrigerator! What's your budget range?'',
      ''Hold on - I spotted some personal information that I should skip over for your protection. No worries though! Let's talk about refrigerators instead. Are you upgrading an old unit or buying your first one?'',
      ''For security reasons, I need to avoid processing personal information like that. But here's what we CAN discuss: our incredible range of refrigerators from compact to commercial! What size space are we working with?'',
      ''I see some sensitive data in your message - let's keep things secure by focusing on what I do best: helping you choose the right refrigerator! Do you prefer traditional models or are you interested in smart features?''
    ]),
    (''toxic_language'', [
      ''I understand you might be frustrated, and I'm here to help make things better. Let's start fresh - what kind of refrigerator would make your day? I promise to find you some great options!'',
      ''I hear your frustration. Let me turn this around for you - finding the right refrigerator can actually be exciting! Tell me what disappointed you before, and I'll make sure we avoid that this time.'',
      ''I appreciate your honesty, even if emotions are running high. How about we channel that energy into finding you a fantastic refrigerator? What's your dream feature - ice maker, huge capacity, or maybe sleek smart controls?'',
      ''Let's keep our conversation positive and productive. I genuinely want to help you find a refrigerator you'll love. What's most important to you - price, features, or brand quality?''
    ]),
    (''off_topic'', [
      ''That's an interesting question, but it's a bit outside my refrigerator expertise! I'm laser-focused on helping you find the perfect cooling solution. Speaking of which, have you considered what capacity you need?'',
      ''I'm flattered you'd ask, but my specialty is refrigerators through and through! Let me wow you with our product range instead. Are you team side-by-side or team French door?'',
      ''While I appreciate the diverse conversation, refrigerators are truly my passion! And I'd love to share that passion with you. What's your current refrigerator situation - time for an upgrade?'',
      ''That's outside my wheelhouse, but you know what IS in my wheelhouse? Helping you find a refrigerator that fits your life perfectly! Budget-friendly or premium - what's your vibe?''
    ])
  ]"

definition CONVERSATION_STARTERS :: "string list" where
  "CONVERSATION_STARTERS = [
    ''Great question! Let me help you with that.'',
    ''I'm glad you asked! Here's what I can tell you:'',
    ''Excellent choice to explore this! Let me explain:'',
    ''Perfect timing - I love talking about this!'',
    ''That's a popular question! Here's the scoop:'',
    ''I'm excited to help you with this!'',
    ''Let me break this down for you:'',
    ''Good thinking! Here's what you should know:''
  ]"

subsection \<open>Exceptions\<close>

datatype error =
    IndexError
  | KeyError string
  | ValueError string

text \<open>The validator that raised a guard failure, and the text of the failure
  (\<^verbatim>\<open>str(e)\<close>). The chat turn reads the text only.\<close>

datatype detector = PIIDetector | ToxicityDetector | OtherDetector

datatype guard_exn = GuardExn detector string

fun str_exn :: "guard_exn \<Rightarrow> string" where
  "str_exn (GuardExn d msg) = msg"

fun raised_by :: "guard_exn \<Rightarrow> detector" where
  "raised_by (GuardExn d msg) = d"

subsection \<open>String helpers\<close>

definition lower_char :: "char \<Rightarrow> char" where
  "lower_char c =
     (case map_of (zip ''ABCDEFGHIJKLMNOPQRSTUVWXYZ'' ''abcdefghijklmnopqrstuvwxyz'') c of
        None \<Rightarrow> c
      | Some l \<Rightarrow> l)"

definition lower :: "string \<Rightarrow> string" where
  "lower s = map lower_char s"

fun starts_with :: "'a list \<Rightarrow> 'a list \<Rightarrow> bool" where
  "starts_with s [] = True"
| "starts_with [] (p # ps) = False"
| "starts_with (c # cs) (p # ps) = (c = p \<and> starts_with cs ps)"

text \<open>\<^verbatim>\<open>sub in s\<close> on strings.\<close>

fun is_in :: "'a list \<Rightarrow> 'a list \<Rightarrow> bool" where
  "is_in sub [] = (sub = [])"
| "is_in sub (c # cs) = (starts_with (c # cs) sub \<or> is_in sub cs)"

subsection \<open>The random module\<close>

text \<open>\<^verbatim>\<open>random.choice(seq)\<close>: an element at an index below the length; an empty
  sequence raises IndexError.\<close>

definition random_choice :: "nat \<Rightarrow> 'a list \<Rightarrow> error + 'a" where
  "random_choice r seq =
     (if seq = [] then Inl IndexError else Inr (seq ! (r mod length seq)))"

subsection \<open>CreativeResponseHandler\<close>

definition max_history :: nat where
  "max_history = 10"

text \<open>\<^verbatim>\<open>xs[-5:]\<close>: the last five entries, the whole list when it is shorter.\<close>

definition last5 :: "'a list \<Rightarrow> 'a list" where
  "last5 xs = drop (length xs - 5) xs"

text \<open>\<^verbatim>\<open>DECLINE_RESPONSES[category]\<close>.\<close>

definition decline_lookup :: "string \<Rightarrow> error + string list" where
  "decline_lookup category =
     (case map_of DECLINE_RESPONSES category of
        None \<Rightarrow> Inl (KeyError category)
      | Some pool \<Rightarrow> Inr pool)"

text \<open>The pool of a category as the handler uses it: the category's own list, and the
  list of \<^verbatim>\<open>off_topic\<close> for a category that is not a key of the table.\<close>

definition pool_for :: "string \<Rightarrow> string list" where
  "pool_for category =
     (case map_of DECLINE_RESPONSES category of
        Some pool \<Rightarrow> pool
      | None \<Rightarrow> (case map_of DECLINE_RESPONSES ''off_topic'' of
                    Some pool \<Rightarrow> pool
                  | None \<Rightarrow> []))"

text \<open>The candidate subset of a selection: the pool without the entries among the last
  five of the history, and the whole pool when nothing is left.\<close>

definition candidates :: "string \<Rightarrow> string list \<Rightarrow> string list" where
  "candidates category h =
     (let filtered = filter (\<lambda>resp. resp \<notin> set (last5 h)) (pool_for category)
      in if filtered = [] then pool_for category else filtered)"

text \<open>The handler's state is its \<^verbatim>\<open>response_history\<close>; the result is the selected
  text with the updated history.\<close>

definition get_varied_decline ::
  "string \<Rightarrow> nat \<Rightarrow> string list \<Rightarrow> error + (string \<times> string list)" where
  "get_varied_decline category0 r response_history =
     (let category = (if map_of DECLINE_RESPONSES category0 = None
                      then ''off_topic'' else category0) in
      case decline_lookup category of
        Inl e \<Rightarrow> Inl e
      | Inr pool \<Rightarrow>
          (let filtered = filter (\<lambda>resp. resp \<notin> set (last5 response_history)) pool;
               available_responses = (if filtered = [] then pool else filtered) in
           case random_choice r available_responses of
             Inl e \<Rightarrow> Inl e
           | Inr selected \<Rightarrow>
               (let appended = response_history @ [selected] in
                Inr (selected,
                     if length appended > max_history then tl appended else appended))))"

definition get_conversation_starter :: "nat \<Rightarrow> error + string" where
  "get_conversation_starter r = random_choice r CONVERSATION_STARTERS"

text \<open>A run of consecutive selections for one category, one draw per selection.\<close>

fun decline_run ::
  "string \<Rightarrow> nat list \<Rightarrow> string list \<Rightarrow> error + (string list \<times> string list)" where
  "decline_run category [] h = Inr ([], h)"
| "decline_run category (r # rs) h =
     (case get_varied_decline category r h of
        Inl e \<Rightarrow> Inl e
      | Inr (selected, h') \<Rightarrow>
          (case decline_run category rs h' of
             Inl e \<Rightarrow> Inl e
           | Inr (more, h'') \<Rightarrow> Inr (selected # more, h'')))"

fun no_consecutive_repeat :: "'a list \<Rightarrow> bool" where
  "no_consecutive_repeat (x # y # ys) = (x \<noteq> y \<and> no_consecutive_repeat (y # ys))"
| "no_consecutive_repeat ys = True"

text \<open>The operations on a handler, and the history each one leaves. A selection that
  raises has not yet appended, so it leaves the history as it was.\<close>

datatype handler_op = Decline string nat | Starter nat | ClearHistory

fun handler_step :: "string list \<Rightarrow> handler_op \<Rightarrow> string list" where
  "handler_step h (Decline category r) =
     (case get_varied_decline category r h of Inl e \<Rightarrow> h | Inr (selected, h') \<Rightarrow> h')"
| "handler_step h (Starter r) = h"
| "handler_step h ClearHistory = []"

subsection \<open>Guard configuration\<close>

datatype on_fail = OnFailException | OnFailFix

datatype validator =
    DetectPII "string list" on_fail
  | ToxicLanguage rat string on_fail

record guard =
  validators :: "validator list"
  description :: string

text \<open>\<^verbatim>\<open>setup_guardrails\<close>, with the module flag \<^verbatim>\<open>HUB_VALIDATORS_AVAILABLE\<close> as its
  argument: the flag is False when the import of the hub validators failed.\<close>

definition setup_guardrails :: "bool \<Rightarrow> guard \<times> guard" where
  "setup_guardrails HUB_VALIDATORS_AVAILABLE =
     (let input_validators =
            (if HUB_VALIDATORS_AVAILABLE then
               [DetectPII [''EMAIL_ADDRESS'', ''PHONE_NUMBER'', ''CREDIT_CARD'', ''SSN'']
                  OnFailException,
                ToxicLanguage (1 / 2) ''sentence'' OnFailException]
             else []);
          output_validators =
            (if HUB_VALIDATORS_AVAILABLE then
               [DetectPII [''EMAIL_ADDRESS'', ''PHONE_NUMBER'', ''CREDIT_CARD'', ''SSN'']
                  OnFailFix,
                ToxicLanguage (1 / 2) ''sentence'' OnFailFix]
             else [])
      in (\<lparr>validators = input_validators, description = ''Input validation''\<rparr>,
          \<lparr>validators = output_validators, description = ''Output validation''\<rparr>))"

text \<open>\<^verbatim>\<open>get_api_key_from_env\<close>, with the value of the environment variable as its
  argument; \<^verbatim>\<open>not api_key\<close> holds for an unset and for an empty variable.\<close>

definition get_api_key_from_env :: "string option \<Rightarrow> error + string" where
  "get_api_key_from_env GROQ_API_KEY =
     (case GROQ_API_KEY of
        None \<Rightarrow> Inl (ValueError ''GROQ_API_KEY not found in environment variables. Please create a .env file with GROQ_API_KEY=your_api_key'')
      | Some api_key \<Rightarrow>
          if api_key = [] then Inl (ValueError ''GROQ_API_KEY not found in environment variables. Please create a .env file with GROQ_API_KEY=your_api_key'')
          else Inr api_key)"

subsection \<open>SecureSalesAssistant\<close>

type_synonym transcript = "(string \<times> string) list"

text \<open>The mutable state of an assistant: the handler's history and the conversation
  memory, a sequence of (question, answer) exchanges.\<close>

record assistant =
  response_history :: "string list"
  memory :: transcript

record bot =
  api_key :: string
  input_guard_cfg :: guard
  output_guard_cfg :: guard
  state :: assistant

text \<open>The constructor. Building the vector store, the model client and the chain is the
  work of third-party code; \<open>build\<close> stands for it and may raise.\<close>

definition SecureSalesAssistant_init ::
  "bool \<Rightarrow> (string \<Rightarrow> string \<Rightarrow> error + unit) \<Rightarrow> string \<Rightarrow> string \<Rightarrow> error + bot" where
  "SecureSalesAssistant_init HUB_VALIDATORS_AVAILABLE build pdf_path key =
     (let (input_guard, output_guard) = setup_guardrails HUB_VALIDATORS_AVAILABLE in
      case build pdf_path key of
        Inl e \<Rightarrow> Inl e
      | Inr u \<Rightarrow> Inr \<lparr>api_key = key, input_guard_cfg = input_guard,
                       output_guard_cfg = output_guard,
                       state = \<lparr>response_history = [], memory = []\<rparr>\<rparr>)"

text \<open>\<^verbatim>\<open>initialize_chatbot\<close>; \<^verbatim>\<open>ensure_catalog_exists\<close> returns the path it is given.\<close>

definition initialize_chatbot ::
  "bool \<Rightarrow> (string \<Rightarrow> string \<Rightarrow> error + unit) \<Rightarrow> string option \<Rightarrow> string option \<Rightarrow> string
     \<Rightarrow> error + bot" where
  "initialize_chatbot HUB_VALIDATORS_AVAILABLE build GROQ_API_KEY api_key_arg pdf_path =
     (case (case api_key_arg of None \<Rightarrow> get_api_key_from_env GROQ_API_KEY
                              | Some k \<Rightarrow> Inr k) of
        Inl e \<Rightarrow> Inl e
      | Inr key \<Rightarrow> SecureSalesAssistant_init HUB_VALIDATORS_AVAILABLE build pdf_path key)"

definition detect_query_intent :: "string \<Rightarrow> string" where
  "detect_query_intent query =
     (let query_lower = lower query;
          confidential_keywords =
            [''api key'', ''password'', ''secret'', ''credential'', ''token'',
             ''employee'', ''salary'', ''internal'', ''confidential'', ''private'',
             ''database'', ''system'', ''admin'', ''backend'', ''server'']
      in if list_ex (\<lambda>keyword. is_in keyword query_lower) confidential_keywords
         then ''confidential_info'' else ''normal'')"

text \<open>The collaborators of a turn. A guard returns its validated output or raises. The
  chain is built over the assistant's memory object: it reads the memory, returns an
  answer or raises, and leaves the memory as it sees fit.\<close>

record collaborators =
  input_guard :: "string \<Rightarrow> guard_exn + string"
  chain :: "transcript \<Rightarrow> string \<Rightarrow> (string + string) \<times> transcript"
  output_guard :: "string \<Rightarrow> guard_exn + string"

record draws =
  coin :: bool
  starter_pick :: nat
  decline_pick :: nat

datatype call = InputGuardCall string | ChainCall string | OutputGuardCall string

text \<open>What a turn leaves: the text returned, the assistant's state, and the collaborator
  calls made, in order.\<close>

record turn =
  reply :: string
  after :: assistant
  calls :: "call list"

definition fallback_message :: string where
  "fallback_message = ''I hit a small snag processing that request. '' @ ''Could you rephrase what you're looking for? '' @ ''I'm here to help you find the perfect refrigerator!''"

definition decline :: "string \<Rightarrow> nat \<Rightarrow> assistant \<Rightarrow> call list \<Rightarrow> error + turn" where
  "decline category r a cs =
     (case get_varied_decline category r (response_history a) of
        Inl e \<Rightarrow> Inl e
      | Inr (selected, h) \<Rightarrow>
          Inr \<lparr>reply = selected, after = a\<lparr>response_history := h\<rparr>, calls = cs\<rparr>)"

definition chat :: "collaborators \<Rightarrow> draws \<Rightarrow> string \<Rightarrow> assistant \<Rightarrow> error + turn" where
  "chat env rnd user_query a =
     (let intent = detect_query_intent user_query in
      case input_guard env user_query of
        Inl e \<Rightarrow>
          (let error_type = lower (str_exn e) in
           if is_in ''pii'' error_type then
             decline ''pii_detected'' (decline_pick rnd) a [InputGuardCall user_query]
           else if is_in ''toxic'' error_type then
             decline ''toxic_language'' (decline_pick rnd) a [InputGuardCall user_query]
           else
             decline ''off_topic'' (decline_pick rnd) a [InputGuardCall user_query])
      | Inr safe_query \<Rightarrow>
          if intent = ''confidential_info'' then
            decline ''confidential_info'' (decline_pick rnd) a [InputGuardCall user_query]
          else
            (case chain env (memory a) safe_query of
               (Inl e, mem) \<Rightarrow>
                 Inr \<lparr>reply = fallback_message, after = a\<lparr>memory := mem\<rparr>,
                      calls = [InputGuardCall user_query, ChainCall safe_query]\<rparr>
             | (Inr answer, mem) \<Rightarrow>
                 (case (if coin rnd then
                          (case get_conversation_starter (starter_pick rnd) of
                             Inl e \<Rightarrow> Inl e
                           | Inr starter \<Rightarrow> Inr (starter @ '' '' @ answer))
                        else Inr answer) of
                    Inl e \<Rightarrow>
                      Inr \<lparr>reply = fallback_message, after = a\<lparr>memory := mem\<rparr>,
                           calls = [InputGuardCall user_query, ChainCall safe_query]\<rparr>
                  | Inr response \<Rightarrow>
                      (case output_guard env response of
                         Inl e \<Rightarrow>
                           decline ''off_topic'' (decline_pick rnd) (a\<lparr>memory := mem\<rparr>)
                             [InputGuardCall user_query, ChainCall safe_query,
                              OutputGuardCall response]
                       | Inr safe_response \<Rightarrow>
                           Inr \<lparr>reply = safe_response, after = a\<lparr>memory := mem\<rparr>,
                                calls = [InputGuardCall user_query, ChainCall safe_query,
                                         OutputGuardCall response]\<rparr>))))"

definition clear_memory :: "assistant \<Rightarrow> assistant" where
  "clear_memory a = a\<lparr>memory := [], response_history := []\<rparr>"

text \<open>A chain that keeps the transcript the way a chain with an attached conversation
  memory does: a successful call saves the exchange (the question with the answer it
  returns), a failed call saves nothing. \<open>gen\<close> is retrieval and generation.\<close>

definition saving_chain ::
  "(transcript \<Rightarrow> string \<Rightarrow> string + string) \<Rightarrow> transcript \<Rightarrow> string
     \<Rightarrow> (string + string) \<times> transcript" where
  "saving_chain gen mem question =
     (case gen mem question of
        Inl e \<Rightarrow> (Inl e, mem)
      | Inr answer \<Rightarrow> (Inr answer, mem @ [(question, answer)]))"

subsection \<open>SessionManager\<close>

record session_manager =
  sessions :: "string \<rightharpoonup> assistant"
  message_counts :: "string \<rightharpoonup> int"

text \<open>\<^verbatim>\<open>get_or_create_session\<close>; the store keeps the state of each session's assistant.\<close>

definition get_or_create_session ::
  "bool \<Rightarrow> (string \<Rightarrow> string \<Rightarrow> error + unit) \<Rightarrow> string \<Rightarrow> string \<Rightarrow> session_manager
     \<Rightarrow> error + (assistant \<times> session_manager)" where
  "get_or_create_session HUB_VALIDATORS_AVAILABLE build sid key m =
     (case sessions m sid of
        None \<Rightarrow>
          (case SecureSalesAssistant_init HUB_VALIDATORS_AVAILABLE build
                  ''refrigerator_catalog.pdf'' key of
             Inl e \<Rightarrow> Inl e
           | Inr b \<Rightarrow>
               (let m1 = m\<lparr>sessions := (sessions m)(sid \<mapsto> state b)\<rparr>;
                    m2 = m1\<lparr>message_counts := (message_counts m1)(sid \<mapsto> 0)\<rparr>
                in Inr (state b, m2)))
      | Some a \<Rightarrow> Inr (a, m))"

definition clear_session :: "string \<Rightarrow> session_manager \<Rightarrow> bool \<times> session_manager" where
  "clear_session session_id m =
     (case sessions m session_id of
        Some a \<Rightarrow>
          (let m1 = m\<lparr>sessions := (sessions m)(session_id \<mapsto> clear_memory a)\<rparr>;
               m2 = m1\<lparr>sessions := (sessions m1)(session_id := None)\<rparr>;
               m3 = m2\<lparr>message_counts := (message_counts m2)(session_id \<mapsto> 0)\<rparr>
           in (True, m3))
      | None \<Rightarrow> (False, m))"

datatype http_exception = HTTPException nat string

record cleared =
  status :: string
  message :: string
  session_id :: string

text \<open>The route function of \<^verbatim>\<open>DELETE /sessions/{session_id}\<close>: it returns the
  body of the answer or raises.\<close>

definition clear_session_endpoint ::
  "string \<Rightarrow> session_manager \<Rightarrow> (http_exception + cleared) \<times> session_manager" where
  "clear_session_endpoint sid m =
     (let (success, m') = clear_session sid m in
      if success then
        (Inr \<lparr>status = ''success'', message = ''Session '' @ sid @ '' cleared'',
              session_id = sid\<rparr>, m')
      else (Inl (HTTPException 404 (''Session '' @ sid @ '' not found'')), m'))"

subsection \<open>The exception handlers of the application\<close>

datatype json_value = JStr string | JNum nat

text \<open>What a handler hands back to the framework: a plain dictionary, or a response
  object with its status code and body.\<close>

datatype handler_return =
    PlainDict "(string \<times> json_value) list"
  | ResponseObject nat string

fun http_exception_handler :: "http_exception \<Rightarrow> handler_return" where
  "http_exception_handler (HTTPException status_code detail) =
     PlainDict [(''error'', JStr detail), (''status_code'', JNum status_code)]"

definition general_exception_handler :: "string \<Rightarrow> handler_return" where
  "general_exception_handler exc =
     PlainDict [(''error'', JStr ''Internal server error''), (''detail'', JStr exc),
                (''status_code'', JNum 500)]"

text \<open>The framework around a route. It sends what an exception handler returns as the
  response itself, which only a response object allows: for a dictionary the send raises
  a TypeError, the handler registered for \<^verbatim>\<open>Exception\<close> is tried in the same way, and
  when that fails too the server answers with its own status 500.\<close>

definition answer_exception :: "http_exception \<Rightarrow> nat" where
  "answer_exception exc =
     (case http_exception_handler exc of
        ResponseObject status_code body \<Rightarrow> status_code
      | PlainDict d \<Rightarrow>
          (case general_exception_handler ''TypeError: dict object is not callable'' of
             ResponseObject status_code body \<Rightarrow> status_code
           | PlainDict d' \<Rightarrow> 500))"

text \<open>A request \<^verbatim>\<open>DELETE /sessions/{session_id}\<close> as the client sees it: the status
  code of the answer, with the store the request leaves. A body returned by the route is
  answered with status 200.\<close>

definition delete_session_request :: "string \<Rightarrow> session_manager \<Rightarrow> nat \<times> session_manager" where
  "delete_session_request sid m =
     (case clear_session_endpoint sid m of
        (Inr body, m') \<Rightarrow> (200, m')
      | (Inl exc, m') \<Rightarrow> (answer_exception exc, m'))"

section \<open>The response handler\<close>

subsection \<open>Facts about the tables\<close>

lemma off_topic_present: "map_of DECLINE_RESPONSES ''off_topic'' \<noteq> None"
  by (simp add: DECLINE_RESPONSES_def)

lemma pools_nonempty: "(k, p) \<in> set DECLINE_RESPONSES \<Longrightarrow> p \<noteq> []"
  by (auto simp add: DECLINE_RESPONSES_def)

lemma pool_for_nonempty: "pool_for category \<noteq> []"
proof (cases "map_of DECLINE_RESPONSES category")
  case None
  obtain p where p: "map_of DECLINE_RESPONSES ''off_topic'' = Some p"
    using off_topic_present by blast
  then have "p \<noteq> []" using pools_nonempty map_of_SomeD by fast
  then show ?thesis using None p by (simp add: pool_for_def)
next
  case (Some p)
  then have "p \<noteq> []" using pools_nonempty map_of_SomeD by fast
  then show ?thesis using Some by (simp add: pool_for_def)
qed

lemma lookup_pool:
  "decline_lookup (if map_of DECLINE_RESPONSES category = None then ''off_topic'' else category)
     = Inr (pool_for category)"
proof (cases "map_of DECLINE_RESPONSES category")
  case None
  obtain p where p: "map_of DECLINE_RESPONSES ''off_topic'' = Some p"
    using off_topic_present by blast
  show ?thesis using None p by (simp add: pool_for_def decline_lookup_def)
next
  case (Some p)
  then show ?thesis by (simp add: pool_for_def decline_lookup_def)
qed

lemma confidential_pool:
  "\<exists>a b c d e. pool_for ''confidential_info'' = [a, b, c, d, e] \<and> distinct [a, b, c, d, e]"
  by (simp add: pool_for_def DECLINE_RESPONSES_def)


lemma pools_disjoint:
  "set (pool_for ''pii_detected'') \<inter> set (pool_for ''confidential_info'') = {}"
  "set (pool_for ''pii_detected'') \<inter> set (pool_for ''toxic_language'') = {}"
  by (simp_all add: pool_for_def DECLINE_RESPONSES_def)

subsection \<open>Selection\<close>

lemma candidates_nonempty: "candidates category h \<noteq> []"
  using pool_for_nonempty by (simp add: candidates_def Let_def)

lemma candidates_subset: "set (candidates category h) \<subseteq> set (pool_for category)"
  by (auto simp add: candidates_def Let_def)

lemma candidates_fresh:
  "filter (\<lambda>resp. resp \<notin> set (last5 h)) (pool_for category) \<noteq> []
     \<Longrightarrow> set (candidates category h) \<inter> set (last5 h) = {}"
  by (auto simp add: candidates_def Let_def)

lemma pick_in_candidates:
  "candidates category h ! (r mod length (candidates category h)) \<in> set (candidates category h)"
  using candidates_nonempty [of category h] by simp

lemma get_varied_decline_eq:
  "get_varied_decline category r h =
     (let selected = candidates category h ! (r mod length (candidates category h))
      in Inr (selected, if length (h @ [selected]) > 10 then tl (h @ [selected])
                        else h @ [selected]))"
  unfolding get_varied_decline_def Let_def lookup_pool
  using candidates_nonempty [of category h]
  by (simp add: candidates_def Let_def random_choice_def max_history_def)







subsection \<open>The bound on the history\<close>

lemma handler_step_bounded:
  assumes "length h \<le> max_history"
  shows "length (handler_step h opn) \<le> max_history"
proof (cases opn)
  case (Decline category r)
  then show ?thesis
    using assms by (simp add: get_varied_decline_eq Let_def max_history_def)
next
  case (Starter r)
  then show ?thesis using assms by simp
next
  case ClearHistory
  then show ?thesis by simp
qed

lemma foldl_handler_step_bounded:
  "length h \<le> max_history \<Longrightarrow> length (foldl handler_step h ops) \<le> max_history"
  by (induction ops arbitrary: h) (simp_all add: handler_step_bounded)

text \<open>
  C8. The response history holds at most ten entries at all times: the bound holds for
  the empty history of a new handler, every operation of the handler preserves it (a
  selection appends one entry and evicts the oldest on overflow, clearing empties the
  history), and so it holds after every sequence of operations.
\<close>

theorem response_history_bounded:
  "length ([] :: string list) \<le> max_history
   \<and> (length h \<le> max_history \<longrightarrow> length (handler_step h opn) \<le> max_history)
   \<and> length (foldl handler_step [] ops) \<le> max_history
   \<and> handler_step h ClearHistory = []"
  using handler_step_bounded [of h opn] foldl_handler_step_bounded [of "[]" ops]
  by simp

theorem response_history_bounded_witness:
  "length ([] :: string list) \<le> max_history
   \<and> length (handler_step [] (Decline ''toxic_language'' 3)) \<le> max_history
   \<and> length (foldl handler_step [] [Decline ''off_topic'' 0, Starter 1, ClearHistory])
       \<le> max_history"
  using response_history_bounded
    [of "[]" "Decline ''toxic_language'' 3" "[Decline ''off_topic'' 0, Starter 1, ClearHistory]"]
  by simp

subsection \<open>Consecutive selections\<close>

lemma last5_short: "length h \<le> 5 \<Longrightarrow> last5 h = h"
  by (simp add: last5_def)

lemma fresh_run_distinct:
  assumes pool: "distinct (pool_for category)" "length (pool_for category) = 5"
  shows "distinct h \<Longrightarrow> set h \<subseteq> set (pool_for category) \<Longrightarrow> length h + length rs \<le> 5
     \<Longrightarrow> \<exists>ss. decline_run category rs h = Inr (ss, h @ ss) \<and> distinct (h @ ss)
            \<and> length ss = length rs \<and> set ss \<subseteq> set (pool_for category)"
proof (induction rs arbitrary: h)
  case Nil
  then show ?case by simp
next
  case (Cons r rs)
  let ?s = "candidates category h ! (r mod length (candidates category h))"
  have len: "length h < 5" using Cons.prems(3) by simp
  have l5: "last5 h = h" using len by (simp add: last5_short)
  have "card (set h) < card (set (pool_for category))"
    using pool len Cons.prems(1) by (simp add: distinct_card)
  then have "\<not> set (pool_for category) \<subseteq> set h"
    using card_mono [of "set h" "set (pool_for category)"] by auto
  then have ne: "filter (\<lambda>resp. resp \<notin> set (last5 h)) (pool_for category) \<noteq> []"
    unfolding l5 by (auto simp add: filter_empty_conv)
  have mem: "?s \<in> set (candidates category h)" by (rule pick_in_candidates)
  have fresh: "?s \<notin> set h" using mem candidates_fresh [OF ne] l5 by auto
  have inpool: "?s \<in> set (pool_for category)" using mem candidates_subset by blast
  have step: "get_varied_decline category r h = Inr (?s, h @ [?s])"
    using len by (simp add: get_varied_decline_eq Let_def)
  have "distinct (h @ [?s])" using Cons.prems(1) fresh by simp
  moreover have "set (h @ [?s]) \<subseteq> set (pool_for category)"
    using Cons.prems(2) inpool by simp
  moreover have "length (h @ [?s]) + length rs \<le> 5" using Cons.prems(3) by simp
  ultimately obtain ss where
    ss: "decline_run category rs (h @ [?s]) = Inr (ss, (h @ [?s]) @ ss)"
        "distinct ((h @ [?s]) @ ss)" "set ss \<subseteq> set (pool_for category)"
        "length ss = length rs"
    using Cons.IH [of "h @ [?s]"] by blast
  have "decline_run category (r # rs) h = Inr (?s # ss, h @ (?s # ss))"
    using step ss(1) by simp
  moreover have "distinct (h @ (?s # ss))" using ss(2) by simp
  moreover have "set (?s # ss) \<subseteq> set (pool_for category)" using ss(3) inpool by simp
  moreover have "length (?s # ss) = length (r # rs)" using ss(4) by simp
  ultimately show ?case by blast
qed

lemma distinct_no_consecutive_repeat: "distinct xs \<Longrightarrow> no_consecutive_repeat xs"
  by (induction xs rule: no_consecutive_repeat.induct) auto

text \<open>
  C6, as the claim states it, fails: five selections from an empty history use up the
  five entries of the \<^verbatim>\<open>confidential_info\<close> pool, the sixth is drawn from the whole pool,
  and with the draw 4 it is the fifth entry again.
\<close>

theorem six_declines_counterexample:
  "\<not> no_consecutive_repeat
       (fst (projr (decline_run ''confidential_info'' [0, 0, 0, 0, 0, 4] [])))"
proof -
  obtain a b c d e where
    pool: "pool_for ''confidential_info'' = [a, b, c, d, e]" and dist: "distinct [a, b, c, d, e]"
    using confidential_pool by blast
  have s1: "get_varied_decline ''confidential_info'' 0 [] = Inr (a, [a])"
    by (simp add: get_varied_decline_eq candidates_def pool last5_def)
  have s2: "get_varied_decline ''confidential_info'' 0 [a] = Inr (b, [a, b])"
    using dist by (auto simp add: get_varied_decline_eq candidates_def pool last5_def)
  have s3: "get_varied_decline ''confidential_info'' 0 [a, b] = Inr (c, [a, b, c])"
    using dist by (auto simp add: get_varied_decline_eq candidates_def pool last5_def)
  have s4: "get_varied_decline ''confidential_info'' 0 [a, b, c] = Inr (d, [a, b, c, d])"
    using dist by (auto simp add: get_varied_decline_eq candidates_def pool last5_def)
  have s5: "get_varied_decline ''confidential_info'' 0 [a, b, c, d] = Inr (e, [a, b, c, d, e])"
    using dist by (auto simp add: get_varied_decline_eq candidates_def pool last5_def)
  have s6: "get_varied_decline ''confidential_info'' 4 [a, b, c, d, e]
              = Inr (e, [a, b, c, d, e, e])"
    using dist by (auto simp add: get_varied_decline_eq candidates_def pool last5_def)
  have "decline_run ''confidential_info'' [0, 0, 0, 0, 0, 4] []
          = Inr ([a, b, c, d, e, e], [a, b, c, d, e, e])"
    by (simp add: s1 s2 s3 s4 s5 s6)
  then show ?thesis by simp
qed

text \<open>
  C6, amended. From an empty history, up to five consecutive \<^verbatim>\<open>confidential_info\<close>
  selections return, for every outcome of the draws, pairwise different entries of the
  pool, so no two consecutive replies are identical.
\<close>

theorem five_declines_distinct:
  "length rs \<le> 5 \<Longrightarrow>
     \<exists>ss. decline_run ''confidential_info'' rs [] = Inr (ss, ss)
          \<and> length ss = length rs \<and> distinct ss \<and> no_consecutive_repeat ss
          \<and> set ss \<subseteq> set (pool_for ''confidential_info'')"
proof -
  assume len: "length rs \<le> 5"
  obtain a b c d e where
    pool: "pool_for ''confidential_info'' = [a, b, c, d, e]" and dist: "distinct [a, b, c, d, e]"
    using confidential_pool by blast
  have "distinct (pool_for ''confidential_info'')" "length (pool_for ''confidential_info'') = 5"
    using pool dist by simp_all
  then obtain ss where
    ss: "decline_run ''confidential_info'' rs [] = Inr (ss, [] @ ss)" "distinct ([] @ ss)"
        "set ss \<subseteq> set (pool_for ''confidential_info'')" "length ss = length rs"
    using fresh_run_distinct [of "''confidential_info''" "[]" rs] len by auto
  then show ?thesis using ss distinct_no_consecutive_repeat by auto
qed

theorem five_declines_distinct_witness:
  "length [2, 7, 1, 0, 3 :: nat] \<le> 5
   \<and> \<not> isl (decline_run ''confidential_info'' [2, 7, 1, 0, 3] [])
   \<and> length (fst (projr (decline_run ''confidential_info'' [2, 7, 1, 0, 3] []))) = 5
   \<and> distinct (fst (projr (decline_run ''confidential_info'' [2, 7, 1, 0, 3] [])))
   \<and> no_consecutive_repeat (fst (projr (decline_run ''confidential_info'' [2, 7, 1, 0, 3] [])))"
proof -
  have len: "length [2, 7, 1, 0, 3 :: nat] \<le> 5" by simp
  obtain ss where
    "decline_run ''confidential_info'' [2, 7, 1, 0, 3] [] = Inr (ss, ss)"
    "length ss = length [2, 7, 1, 0, 3 :: nat]" "distinct ss" "no_consecutive_repeat ss"
    using five_declines_distinct [OF len] by blast
  then show ?thesis by simp
qed

section \<open>The chat turn\<close>

lemma decline_eq:
  "decline category r a cs =
     (let h = response_history a;
          selected = candidates category h ! (r mod length (candidates category h))
      in Inr \<lparr>reply = selected,
              after = a\<lparr>response_history :=
                        (if length (h @ [selected]) > 10 then tl (h @ [selected])
                         else h @ [selected])\<rparr>,
              calls = cs\<rparr>)"
  by (simp add: decline_def get_varied_decline_eq Let_def)

lemma decline_turn:
  "\<exists>t. decline category r a cs = Inr t \<and> reply t \<in> set (pool_for category)
        \<and> calls t = cs \<and> memory (after t) = memory a"
proof -
  have "candidates category (response_history a)
          ! (r mod length (candidates category (response_history a)))
        \<in> set (pool_for category)"
    using pick_in_candidates candidates_subset by blast
  then show ?thesis by (simp add: decline_eq Let_def)
qed

lemma chat_input_failure:
  "input_guard env user_query = Inl e \<Longrightarrow>
     chat env rnd user_query a =
       decline (if is_in ''pii'' (lower (str_exn e)) then ''pii_detected''
                else if is_in ''toxic'' (lower (str_exn e)) then ''toxic_language''
                else ''off_topic'')
         (decline_pick rnd) a [InputGuardCall user_query]"
  by (simp add: chat_def Let_def)

text \<open>
  C1, as the claim states it, fails: the input guard runs before the intent is acted
  on. A query with a confidential keyword on which the guard raises a PII failure is
  answered from the \<^verbatim>\<open>pii_detected\<close> pool, and the guard has been called.
\<close>

theorem confidential_short_circuit_counterexample:
  "detect_query_intent ''my password is a@b.io'' = ''confidential_info''
   \<and> reply (projr (chat
        \<lparr>input_guard = (\<lambda>q. Inl (GuardExn PIIDetector ''contains PII'')),
         chain = (\<lambda>m q. (Inr ''answer'', m)),
         output_guard = (\<lambda>r. Inr r)\<rparr>
        \<lparr>coin = False, starter_pick = 0, decline_pick = 0\<rparr>
        ''my password is a@b.io''
        \<lparr>response_history = [], memory = []\<rparr>))
       \<notin> set (pool_for ''confidential_info'')
   \<and> calls (projr (chat
        \<lparr>input_guard = (\<lambda>q. Inl (GuardExn PIIDetector ''contains PII'')),
         chain = (\<lambda>m q. (Inr ''answer'', m)),
         output_guard = (\<lambda>r. Inr r)\<rparr>
        \<lparr>coin = False, starter_pick = 0, decline_pick = 0\<rparr>
        ''my password is a@b.io''
        \<lparr>response_history = [], memory = []\<rparr>))
       = [InputGuardCall ''my password is a@b.io'']"
proof -
  let ?a = "\<lparr>response_history = [], memory = []\<rparr>"
  let ?cs = "[InputGuardCall ''my password is a@b.io'']"
  have intent: "detect_query_intent ''my password is a@b.io'' = ''confidential_info''"
    by (simp add: detect_query_intent_def lower_def lower_char_def)
  have turn: "chat
        \<lparr>input_guard = (\<lambda>q. Inl (GuardExn PIIDetector ''contains PII'')),
         chain = (\<lambda>m q. (Inr ''answer'', m)),
         output_guard = (\<lambda>r. Inr r)\<rparr>
        \<lparr>coin = False, starter_pick = 0, decline_pick = 0\<rparr>
        ''my password is a@b.io'' ?a
      = decline ''pii_detected'' 0 ?a ?cs"
    by (simp add: chat_def lower_def lower_char_def)
  obtain t where t: "decline ''pii_detected'' 0 ?a ?cs = Inr t"
    "reply t \<in> set (pool_for ''pii_detected'')" "calls t = ?cs"
    using decline_turn by blast
  have "reply t \<notin> set (pool_for ''confidential_info'')"
    using t(2) pools_disjoint(1) by blast
  then show ?thesis using intent turn t by simp
qed

text \<open>
  C1, amended. For every input that the intent scan labels \<^verbatim>\<open>confidential_info\<close> the
  input guard is called first and nothing else is: the chain and the output guard are
  not called on that turn. When the guard passes the input, the reply is an entry of the
  \<^verbatim>\<open>confidential_info\<close> pool; when it raises, the reply is an entry of the pool chosen for
  the failure (\<^verbatim>\<open>pii_detected\<close>, \<^verbatim>\<open>toxic_language\<close> or \<^verbatim>\<open>off_topic\<close>).
\<close>

theorem confidential_declined_after_input_guard:
  assumes "detect_query_intent user_query = ''confidential_info''"
  shows "\<exists>t. chat env rnd user_query a = Inr t
           \<and> calls t = [InputGuardCall user_query]
           \<and> memory (after t) = memory a
           \<and> (case input_guard env user_query of
                 Inr safe_query \<Rightarrow> reply t \<in> set (pool_for ''confidential_info'')
               | Inl e \<Rightarrow> reply t \<in> set (pool_for ''pii_detected'')
                                   \<union> set (pool_for ''toxic_language'')
                                   \<union> set (pool_for ''off_topic''))"
proof (cases "input_guard env user_query")
  case (Inr safe_query)
  have "chat env rnd user_query a =
          decline ''confidential_info'' (decline_pick rnd) a [InputGuardCall user_query]"
    using assms Inr by (simp add: chat_def)
  then show ?thesis
    using Inr decline_turn [of "''confidential_info''" "decline_pick rnd" a
      "[InputGuardCall user_query]"] by auto
next
  case (Inl e)
  let ?cs = "[InputGuardCall user_query]"
  have "chat env rnd user_query a = decline ''pii_detected'' (decline_pick rnd) a ?cs
        \<or> chat env rnd user_query a = decline ''toxic_language'' (decline_pick rnd) a ?cs
        \<or> chat env rnd user_query a = decline ''off_topic'' (decline_pick rnd) a ?cs"
    using chat_input_failure [OF Inl] by simp
  then show ?thesis
    using Inl decline_turn [of "''pii_detected''" "decline_pick rnd" a ?cs]
      decline_turn [of "''toxic_language''" "decline_pick rnd" a ?cs]
      decline_turn [of "''off_topic''" "decline_pick rnd" a ?cs]
    by auto
qed

theorem confidential_declined_after_input_guard_witness:
  "detect_query_intent ''What is the ADMIN password?'' = ''confidential_info''
   \<and> reply (projr (chat
        \<lparr>input_guard = (\<lambda>q. Inr q), chain = (\<lambda>m q. (Inr ''answer'', m)),
         output_guard = (\<lambda>r. Inr r)\<rparr>
        \<lparr>coin = True, starter_pick = 2, decline_pick = 3\<rparr>
        ''What is the ADMIN password?''
        \<lparr>response_history = [], memory = [(''hi'', ''hello'')]\<rparr>))
       \<in> set (pool_for ''confidential_info'')
   \<and> calls (projr (chat
        \<lparr>input_guard = (\<lambda>q. Inr q), chain = (\<lambda>m q. (Inr ''answer'', m)),
         output_guard = (\<lambda>r. Inr r)\<rparr>
        \<lparr>coin = True, starter_pick = 2, decline_pick = 3\<rparr>
        ''What is the ADMIN password?''
        \<lparr>response_history = [], memory = [(''hi'', ''hello'')]\<rparr>))
       = [InputGuardCall ''What is the ADMIN password?'']"
proof -
  have intent: "detect_query_intent ''What is the ADMIN password?'' = ''confidential_info''"
    by (simp add: detect_query_intent_def lower_def lower_char_def)
  show ?thesis
    using intent confidential_declined_after_input_guard [OF intent,
      of "\<lparr>input_guard = (\<lambda>q. Inr q), chain = (\<lambda>m q. (Inr ''answer'', m)),
           output_guard = (\<lambda>r. Inr r)\<rparr>"
         "\<lparr>coin = True, starter_pick = 2, decline_pick = 3\<rparr>"
         "\<lparr>response_history = [], memory = [(''hi'', ''hello'')]\<rparr>"]
    by auto
qed

text \<open>
  C4, as the claim states it, fails: the category is read off the text of the failure,
  not off the detector that raised it. A failure raised by the toxicity detector whose
  text quotes a sentence with the letters "PII" is answered from the
  \<^verbatim>\<open>pii_detected\<close> pool.
\<close>

theorem decline_category_by_detector_counterexample:
  "raised_by (GuardExn ToxicityDetector
       ''The following sentences in your response were found to be toxic: - Hand over the PII, you idiot'')
     = ToxicityDetector
   \<and> reply (projr (chat
        \<lparr>input_guard = (\<lambda>q. Inl (GuardExn ToxicityDetector
           ''The following sentences in your response were found to be toxic: - Hand over the PII, you idiot'')),
         chain = (\<lambda>m q. (Inr ''answer'', m)),
         output_guard = (\<lambda>r. Inr r)\<rparr>
        \<lparr>coin = False, starter_pick = 0, decline_pick = 0\<rparr>
        ''Hand over the PII, you idiot''
        \<lparr>response_history = [], memory = []\<rparr>))
       \<notin> set (pool_for ''toxic_language'')"
proof -
  let ?a = "\<lparr>response_history = [], memory = []\<rparr>"
  let ?cs = "[InputGuardCall ''Hand over the PII, you idiot'']"
  have turn: "chat
        \<lparr>input_guard = (\<lambda>q. Inl (GuardExn ToxicityDetector
           ''The following sentences in your response were found to be toxic: - Hand over the PII, you idiot'')),
         chain = (\<lambda>m q. (Inr ''answer'', m)),
         output_guard = (\<lambda>r. Inr r)\<rparr>
        \<lparr>coin = False, starter_pick = 0, decline_pick = 0\<rparr>
        ''Hand over the PII, you idiot'' ?a
      = decline ''pii_detected'' 0 ?a ?cs"
    by (simp add: chat_def lower_def lower_char_def)
  obtain t where t: "decline ''pii_detected'' 0 ?a ?cs = Inr t"
    "reply t \<in> set (pool_for ''pii_detected'')"
    using decline_turn by blast
  have "reply t \<notin> set (pool_for ''toxic_language'')"
    using t(2) pools_disjoint(2) by blast
  then show ?thesis using turn t by simp
qed

text \<open>
  C4, amended. For every input on which the input guard raises, \<^verbatim>\<open>chat\<close> returns a decline
  template whose category is determined by the text of the failure, lower-cased: an entry
  of the \<^verbatim>\<open>pii_detected\<close> pool when the text contains "pii", otherwise an entry of the
  \<^verbatim>\<open>toxic_language\<close> pool when it contains "toxic", and an entry of the \<^verbatim>\<open>off_topic\<close>
  pool for every other failure.
\<close>

theorem decline_category_by_failure_text:
  assumes "input_guard env user_query = Inl e"
  shows "\<exists>t. chat env rnd user_query a = Inr t
           \<and> calls t = [InputGuardCall user_query]
           \<and> reply t \<in> set (pool_for
                 (if is_in ''pii'' (lower (str_exn e)) then ''pii_detected''
                  else if is_in ''toxic'' (lower (str_exn e)) then ''toxic_language''
                  else ''off_topic''))"
  using chat_input_failure [OF assms, of rnd a]
    decline_turn [of "if is_in ''pii'' (lower (str_exn e)) then ''pii_detected''
                      else if is_in ''toxic'' (lower (str_exn e)) then ''toxic_language''
                      else ''off_topic''" "decline_pick rnd" a "[InputGuardCall user_query]"]
  by auto

theorem decline_category_by_failure_text_witness:
  "input_guard \<lparr>input_guard = (\<lambda>q. Inl (GuardExn ToxicityDetector ''Toxic sentence found'')),
         chain = (\<lambda>m q. (Inr ''answer'', m)), output_guard = (\<lambda>r. Inr r)\<rparr> ''you fool''
     = Inl (GuardExn ToxicityDetector ''Toxic sentence found'')
   \<and> reply (projr (chat
        \<lparr>input_guard = (\<lambda>q. Inl (GuardExn ToxicityDetector ''Toxic sentence found'')),
         chain = (\<lambda>m q. (Inr ''answer'', m)), output_guard = (\<lambda>r. Inr r)\<rparr>
        \<lparr>coin = False, starter_pick = 0, decline_pick = 5\<rparr>
        ''you fool''
        \<lparr>response_history = [], memory = []\<rparr>))
       \<in> set (pool_for ''toxic_language'')"
proof -
  let ?env = "\<lparr>input_guard = (\<lambda>q. Inl (GuardExn ToxicityDetector ''Toxic sentence found'')),
         chain = (\<lambda>m q. (Inr ''answer'', m)), output_guard = (\<lambda>r. Inr r)\<rparr>"
  have g: "input_guard ?env ''you fool'' = Inl (GuardExn ToxicityDetector ''Toxic sentence found'')"
    by simp
  have cat: "(if is_in ''pii'' (lower (str_exn (GuardExn ToxicityDetector ''Toxic sentence found'')))
              then ''pii_detected''
              else if is_in ''toxic'' (lower (str_exn (GuardExn ToxicityDetector ''Toxic sentence found'')))
              then ''toxic_language'' else ''off_topic'') = ''toxic_language''"
    by (simp add: lower_def lower_char_def)
  show ?thesis
    using g decline_category_by_failure_text [OF g,
      of "\<lparr>coin = False, starter_pick = 0, decline_pick = 5\<rparr>"
         "\<lparr>response_history = [], memory = []\<rparr>"]
    unfolding cat by auto
qed

section \<open>Generation failure\<close>

lemma fallback_not_a_template:
  "(k, p) \<in> set DECLINE_RESPONSES \<Longrightarrow> fallback_message \<notin> set p"
  by (auto simp add: DECLINE_RESPONSES_def fallback_message_def)

lemma fallback_not_in_pool: "fallback_message \<notin> set (pool_for category)"
proof (cases "map_of DECLINE_RESPONSES category")
  case None
  show ?thesis
  proof (cases "map_of DECLINE_RESPONSES ''off_topic''")
    case None
    then show ?thesis using off_topic_present by simp
  next
    case (Some p)
    then have "fallback_message \<notin> set p"
      using fallback_not_a_template map_of_SomeD by fast
    then show ?thesis using None Some by (simp add: pool_for_def)
  qed
next
  case (Some p)
  then have "fallback_message \<notin> set p"
    using fallback_not_a_template map_of_SomeD by fast
  then show ?thesis using Some by (simp add: pool_for_def)
qed

text \<open>
  C7. For every input on which the retrieval and generation step raises (the input guard
  has passed the input, the intent is not \<^verbatim>\<open>confidential_info\<close>, and the chain raises),
  \<^verbatim>\<open>chat\<close> returns a text rather than raising: the generic fallback message, which is not
  empty and is not an entry of any decline pool.
\<close>

theorem generation_failure_gives_fallback:
  assumes "input_guard env user_query = Inr safe_query"
    and "detect_query_intent user_query \<noteq> ''confidential_info''"
    and "fst (chain env (memory a) safe_query) = Inl e"
  shows "\<exists>t. chat env rnd user_query a = Inr t
           \<and> reply t = fallback_message
           \<and> fallback_message \<noteq> []
           \<and> (\<forall>category. fallback_message \<notin> set (pool_for category))
           \<and> (\<forall>k p. (k, p) \<in> set DECLINE_RESPONSES \<longrightarrow> fallback_message \<notin> set p)
           \<and> calls t = [InputGuardCall user_query, ChainCall safe_query]
           \<and> response_history (after t) = response_history a"
proof -
  obtain mem where c: "chain env (memory a) safe_query = (Inl e, mem)"
    using assms(3) by (cases "chain env (memory a) safe_query") simp
  have "chat env rnd user_query a =
          Inr \<lparr>reply = fallback_message, after = a\<lparr>memory := mem\<rparr>,
               calls = [InputGuardCall user_query, ChainCall safe_query]\<rparr>"
    using assms(1,2) c by (simp add: chat_def)
  moreover have "fallback_message \<noteq> []" by (simp add: fallback_message_def)
  ultimately show ?thesis
    using fallback_not_in_pool fallback_not_a_template by auto
qed

theorem generation_failure_gives_fallback_witness:
  "input_guard \<lparr>input_guard = (\<lambda>q. Inr q),
         chain = (\<lambda>m q. (Inl ''timeout'', m)), output_guard = (\<lambda>r. Inr r)\<rparr>
       ''which fridge is quiet?'' = Inr ''which fridge is quiet?''
   \<and> detect_query_intent ''which fridge is quiet?'' \<noteq> ''confidential_info''
   \<and> reply (projr (chat
        \<lparr>input_guard = (\<lambda>q. Inr q),
         chain = (\<lambda>m q. (Inl ''timeout'', m)), output_guard = (\<lambda>r. Inr r)\<rparr>
        \<lparr>coin = True, starter_pick = 0, decline_pick = 0\<rparr>
        ''which fridge is quiet?''
        \<lparr>response_history = [], memory = []\<rparr>)) = fallback_message"
proof -
  let ?env = "\<lparr>input_guard = (\<lambda>q. Inr q),
         chain = (\<lambda>m q. (Inl ''timeout'', m)), output_guard = (\<lambda>r. Inr r)\<rparr>"
  let ?a = "\<lparr>response_history = [], memory = []\<rparr>"
  have g: "input_guard ?env ''which fridge is quiet?'' = Inr ''which fridge is quiet?''"
    by simp
  have i: "detect_query_intent ''which fridge is quiet?'' \<noteq> ''confidential_info''"
    by (simp add: detect_query_intent_def lower_def lower_char_def)
  have c: "fst (chain ?env (memory ?a) ''which fridge is quiet?'') = Inl ''timeout''"
    by simp
  show ?thesis
    using g i generation_failure_gives_fallback [OF g i c,
      of "\<lparr>coin = True, starter_pick = 0, decline_pick = 0\<rparr>"]
    by auto
qed

section \<open>The transcript\<close>

lemma chat_intent_decline:
  "input_guard env user_query = Inr safe_query \<Longrightarrow>
   detect_query_intent user_query = ''confidential_info'' \<Longrightarrow>
     chat env rnd user_query a =
       decline ''confidential_info'' (decline_pick rnd) a [InputGuardCall user_query]"
  by (simp add: chat_def)

lemma chat_memory_after_chain:
  assumes "input_guard env user_query = Inr safe_query"
    and "detect_query_intent user_query \<noteq> ''confidential_info''"
  shows "\<exists>t. chat env rnd user_query a = Inr t
           \<and> memory (after t) = snd (chain env (memory a) safe_query)"
proof -
  obtain res mem where c: "chain env (memory a) safe_query = (res, mem)"
    by (cases "chain env (memory a) safe_query") simp
  show ?thesis
  proof (cases res)
    case (Inl e)
    then show ?thesis using assms c by (simp add: chat_def)
  next
    case (Inr answer)
    let ?resp = "if coin rnd then
                   (case get_conversation_starter (starter_pick rnd) of
                      Inl e \<Rightarrow> Inl e
                    | Inr starter \<Rightarrow> Inr (starter @ '' '' @ answer))
                 else Inr answer"
    show ?thesis
    proof (cases ?resp)
      case (Inl e)
      then show ?thesis using assms c Inr by (simp add: chat_def)
    next
      case r: (Inr response)
      show ?thesis
      proof (cases "output_guard env response")
        case (Inl e)
        obtain t where "decline ''off_topic'' (decline_pick rnd) (a\<lparr>memory := mem\<rparr>)
            [InputGuardCall user_query, ChainCall safe_query, OutputGuardCall response] = Inr t"
          "memory (after t) = memory (a\<lparr>memory := mem\<rparr>)"
          using decline_turn by blast
        then show ?thesis using assms c Inr r Inl by (simp add: chat_def)
      next
        case o: (Inr safe_response)
        then show ?thesis using assms c Inr r by (simp add: chat_def)
      qed
    qed
  qed
qed

text \<open>
  C2, as the claim states it, fails. The turn writes the transcript nowhere itself; the
  chain does, and it has done so before the output guard runs. With a chain that saves
  each successful exchange, a turn that ends in the \<^verbatim>\<open>off_topic\<close> decline for an output
  failure has changed the transcript, and a delivered turn whose reply carries a starter
  has saved the answer without it.
\<close>

theorem transcript_only_on_delivery_counterexample:
  "reply (projr (chat
        \<lparr>input_guard = (\<lambda>q. Inr q),
         chain = saving_chain (\<lambda>m q. Inr ''Hi there''),
         output_guard = (\<lambda>r. Inl (GuardExn OtherDetector ''validation failed''))\<rparr>
        \<lparr>coin = False, starter_pick = 0, decline_pick = 0\<rparr>
        ''hello'' \<lparr>response_history = [], memory = []\<rparr>))
     \<in> set (pool_for ''off_topic'')
   \<and> memory (after (projr (chat
        \<lparr>input_guard = (\<lambda>q. Inr q),
         chain = saving_chain (\<lambda>m q. Inr ''Hi there''),
         output_guard = (\<lambda>r. Inl (GuardExn OtherDetector ''validation failed''))\<rparr>
        \<lparr>coin = False, starter_pick = 0, decline_pick = 0\<rparr>
        ''hello'' \<lparr>response_history = [], memory = []\<rparr>)))
     = [(''hello'', ''Hi there'')]
   \<and> reply (projr (chat
        \<lparr>input_guard = (\<lambda>q. Inr q),
         chain = saving_chain (\<lambda>m q. Inr ''Hi there''),
         output_guard = (\<lambda>r. Inr r)\<rparr>
        \<lparr>coin = True, starter_pick = 6, decline_pick = 0\<rparr>
        ''hello'' \<lparr>response_history = [], memory = []\<rparr>))
     = ''Let me break this down for you: Hi there''
   \<and> memory (after (projr (chat
        \<lparr>input_guard = (\<lambda>q. Inr q),
         chain = saving_chain (\<lambda>m q. Inr ''Hi there''),
         output_guard = (\<lambda>r. Inr r)\<rparr>
        \<lparr>coin = True, starter_pick = 6, decline_pick = 0\<rparr>
        ''hello'' \<lparr>response_history = [], memory = []\<rparr>)))
     = [(''hello'', ''Hi there'')]"
proof -
  let ?a = "\<lparr>response_history = [], memory = []\<rparr>"
  let ?cs = "[InputGuardCall ''hello'', ChainCall ''hello'', OutputGuardCall ''Hi there'']"
  have intent: "detect_query_intent ''hello'' = ''normal''"
    by (simp add: detect_query_intent_def lower_def lower_char_def)
  have turn1: "chat
        \<lparr>input_guard = (\<lambda>q. Inr q),
         chain = saving_chain (\<lambda>m q. Inr ''Hi there''),
         output_guard = (\<lambda>r. Inl (GuardExn OtherDetector ''validation failed''))\<rparr>
        \<lparr>coin = False, starter_pick = 0, decline_pick = 0\<rparr> ''hello'' ?a
      = decline ''off_topic'' 0 (?a\<lparr>memory := [(''hello'', ''Hi there'')]\<rparr>) ?cs"
    by (simp add: chat_def intent saving_chain_def)
  obtain t where t: "decline ''off_topic'' 0 (?a\<lparr>memory := [(''hello'', ''Hi there'')]\<rparr>) ?cs
      = Inr t" "reply t \<in> set (pool_for ''off_topic'')"
    "memory (after t) = memory (?a\<lparr>memory := [(''hello'', ''Hi there'')]\<rparr>)"
    using decline_turn by blast
  have starter: "get_conversation_starter 6 = Inr ''Let me break this down for you:''"
    by (simp add: get_conversation_starter_def random_choice_def CONVERSATION_STARTERS_def)
  have turn2: "chat
        \<lparr>input_guard = (\<lambda>q. Inr q),
         chain = saving_chain (\<lambda>m q. Inr ''Hi there''),
         output_guard = (\<lambda>r. Inr r)\<rparr>
        \<lparr>coin = True, starter_pick = 6, decline_pick = 0\<rparr> ''hello'' ?a
      = Inr \<lparr>reply = ''Let me break this down for you: Hi there'',
             after = ?a\<lparr>memory := [(''hello'', ''Hi there'')]\<rparr>,
             calls = [InputGuardCall ''hello'', ChainCall ''hello'',
                      OutputGuardCall ''Let me break this down for you: Hi there'']\<rparr>"
    by (simp add: chat_def intent saving_chain_def starter)
  show ?thesis using turn1 t turn2 by simp
qed

text \<open>
  C2, amended. For every turn, the transcript is unchanged when the turn ends in an
  intent decline or in an input-validation failure: the chain is not called. On every
  other turn the transcript after the turn is the one the chain call left, whether the
  turn ends delivered, in the fallback or in the \<^verbatim>\<open>off_topic\<close> decline for an output
  failure; \<^verbatim>\<open>chat\<close> itself appends nothing, and in particular not the delivered text.
  With a chain that saves its successful exchanges, such a turn leaves the transcript
  unchanged when generation fails and extended by the validated query with the raw answer
  when generation succeeds.
\<close>

theorem transcript_left_by_chain:
  "(\<exists>t. chat env rnd user_query a = Inr t
       \<and> memory (after t) =
           (case input_guard env user_query of
              Inl e \<Rightarrow> memory a
            | Inr safe_query \<Rightarrow>
                if detect_query_intent user_query = ''confidential_info'' then memory a
                else snd (chain env (memory a) safe_query)))
   \<and> (chain env = saving_chain gen \<and> input_guard env user_query = Inr safe
        \<and> detect_query_intent user_query \<noteq> ''confidential_info'' \<longrightarrow>
        (\<exists>t. chat env rnd user_query a = Inr t
             \<and> memory (after t) =
                 (case gen (memory a) safe of
                    Inl e \<Rightarrow> memory a
                  | Inr answer \<Rightarrow> memory a @ [(safe, answer)])))"
proof -
  have general: "\<exists>t. chat env rnd user_query a = Inr t
       \<and> memory (after t) =
           (case input_guard env user_query of
              Inl e \<Rightarrow> memory a
            | Inr safe_query \<Rightarrow>
                if detect_query_intent user_query = ''confidential_info'' then memory a
                else snd (chain env (memory a) safe_query))"
  proof (cases "input_guard env user_query")
    case (Inl e)
    show ?thesis
      using chat_input_failure [OF Inl, of rnd a] Inl
        decline_turn [of "if is_in ''pii'' (lower (str_exn e)) then ''pii_detected''
                          else if is_in ''toxic'' (lower (str_exn e)) then ''toxic_language''
                          else ''off_topic''" "decline_pick rnd" a "[InputGuardCall user_query]"]
      by auto
  next
    case (Inr safe_query)
    show ?thesis
    proof (cases "detect_query_intent user_query = ''confidential_info''")
      case True
      show ?thesis
        using chat_intent_decline [OF Inr True, of rnd a] Inr True
          decline_turn [of "''confidential_info''" "decline_pick rnd" a
            "[InputGuardCall user_query]"]
        by auto
    next
      case False
      show ?thesis
        using chat_memory_after_chain [OF Inr False, of rnd a] Inr False by auto
    qed
  qed
  have saving: "chain env = saving_chain gen \<and> input_guard env user_query = Inr safe
        \<and> detect_query_intent user_query \<noteq> ''confidential_info'' \<longrightarrow>
        (\<exists>t. chat env rnd user_query a = Inr t
             \<and> memory (after t) =
                 (case gen (memory a) safe of
                    Inl e \<Rightarrow> memory a
                  | Inr answer \<Rightarrow> memory a @ [(safe, answer)]))"
  proof
    assume h: "chain env = saving_chain gen \<and> input_guard env user_query = Inr safe
        \<and> detect_query_intent user_query \<noteq> ''confidential_info''"
    have "snd (saving_chain gen (memory a) safe) =
            (case gen (memory a) safe of
               Inl e \<Rightarrow> memory a
             | Inr answer \<Rightarrow> memory a @ [(safe, answer)])"
      by (simp add: saving_chain_def split: sum.splits)
    then show "\<exists>t. chat env rnd user_query a = Inr t
             \<and> memory (after t) =
                 (case gen (memory a) safe of
                    Inl e \<Rightarrow> memory a
                  | Inr answer \<Rightarrow> memory a @ [(safe, answer)])"
      using chat_memory_after_chain [of env user_query safe rnd a] h by simp
  qed
  show ?thesis using general saving by blast
qed

theorem transcript_left_by_chain_witness:
  "detect_query_intent ''hello'' \<noteq> ''confidential_info''
   \<and> memory (after (projr (chat
        \<lparr>input_guard = (\<lambda>q. Inr q),
         chain = saving_chain (\<lambda>m q. Inl ''timeout''),
         output_guard = (\<lambda>r. Inr r)\<rparr>
        \<lparr>coin = False, starter_pick = 0, decline_pick = 0\<rparr>
        ''hello'' \<lparr>response_history = [], memory = [(''a'', ''b'')]\<rparr>)))
       = [(''a'', ''b'')]
   \<and> memory (after (projr (chat
        \<lparr>input_guard = (\<lambda>q. Inr q),
         chain = saving_chain (\<lambda>m q. Inr ''Hi''),
         output_guard = (\<lambda>r. Inr r)\<rparr>
        \<lparr>coin = False, starter_pick = 0, decline_pick = 0\<rparr>
        ''hello'' \<lparr>response_history = [], memory = [(''a'', ''b'')]\<rparr>)))
       = [(''a'', ''b''), (''hello'', ''Hi'')]"
proof -
  let ?a = "\<lparr>response_history = [], memory = [(''a'', ''b'')]\<rparr>"
  let ?rnd = "\<lparr>coin = False, starter_pick = 0, decline_pick = 0\<rparr>"
  have intent: "detect_query_intent ''hello'' \<noteq> ''confidential_info''"
    by (simp add: detect_query_intent_def lower_def lower_char_def)
  show ?thesis
    using intent
      transcript_left_by_chain
        [of "\<lparr>input_guard = (\<lambda>q. Inr q),
              chain = saving_chain (\<lambda>m q. Inl ''timeout''),
              output_guard = (\<lambda>r. Inr r)\<rparr>"
            ?rnd "''hello''" ?a "\<lambda>m q. Inl ''timeout''" "''hello''"]
      transcript_left_by_chain
        [of "\<lparr>input_guard = (\<lambda>q. Inr q),
              chain = saving_chain (\<lambda>m q. Inr ''Hi''),
              output_guard = (\<lambda>r. Inr r)\<rparr>"
            ?rnd "''hello''" ?a "\<lambda>m q. Inr ''Hi''" "''hello''"]
    by auto
qed

section \<open>Clearing\<close>

lemma candidates_empty_history: "candidates category [] = pool_for category"
  using pool_for_nonempty [of category] by (simp add: candidates_def last5_def)

text \<open>
  C9. After \<^verbatim>\<open>clear_memory\<close> the transcript is empty, so the chain of the next turn runs
  on the empty transcript, and the response history is empty, so every entry of every
  pool can be selected at once (the draw \<open>i\<close> selects entry \<open>i\<close>), whatever the history
  was before. \<^verbatim>\<open>clear_session\<close> of the session manager removes the session, and the next
  message under that id starts from a new assistant with both empty.
\<close>

theorem clear_memory_resets:
  "memory (clear_memory a) = []
   \<and> response_history (clear_memory a) = []
   \<and> (i < length (pool_for category) \<longrightarrow>
        get_varied_decline category i (response_history (clear_memory a))
          = Inr (pool_for category ! i, [pool_for category ! i]))
   \<and> (input_guard env user_query = Inr safe_query
        \<and> detect_query_intent user_query \<noteq> ''confidential_info'' \<longrightarrow>
        (\<exists>t. chat env rnd user_query (clear_memory a) = Inr t
             \<and> memory (after t) = snd (chain env [] safe_query)))
   \<and> (sessions m sid = Some a \<longrightarrow>
        fst (clear_session sid m) = True
        \<and> sessions (snd (clear_session sid m)) sid = None
        \<and> (build ''refrigerator_catalog.pdf'' key = Inr () \<longrightarrow>
             (\<exists>m'. get_or_create_session hub build sid key (snd (clear_session sid m))
                     = Inr (\<lparr>response_history = [], memory = []\<rparr>, m'))))"
proof -
  have sel: "i < length (pool_for category) \<longrightarrow>
        get_varied_decline category i (response_history (clear_memory a))
          = Inr (pool_for category ! i, [pool_for category ! i])"
    by (simp add: clear_memory_def get_varied_decline_eq candidates_empty_history Let_def)
  have prompt: "input_guard env user_query = Inr safe_query
        \<and> detect_query_intent user_query \<noteq> ''confidential_info'' \<longrightarrow>
        (\<exists>t. chat env rnd user_query (clear_memory a) = Inr t
             \<and> memory (after t) = snd (chain env [] safe_query))"
  proof
    assume h: "input_guard env user_query = Inr safe_query
        \<and> detect_query_intent user_query \<noteq> ''confidential_info''"
    have "memory (clear_memory a) = []" by (simp add: clear_memory_def)
    then show "\<exists>t. chat env rnd user_query (clear_memory a) = Inr t
             \<and> memory (after t) = snd (chain env [] safe_query)"
      using chat_memory_after_chain [of env user_query safe_query rnd "clear_memory a"] h
      by simp
  qed
  have store: "sessions m sid = Some a \<longrightarrow>
        fst (clear_session sid m) = True
        \<and> sessions (snd (clear_session sid m)) sid = None
        \<and> (build ''refrigerator_catalog.pdf'' key = Inr () \<longrightarrow>
             (\<exists>m'. get_or_create_session hub build sid key (snd (clear_session sid m))
                     = Inr (\<lparr>response_history = [], memory = []\<rparr>, m')))"
    by (simp add: clear_session_def get_or_create_session_def SecureSalesAssistant_init_def
        Let_def split: prod.splits)
  show ?thesis using sel prompt store by (simp add: clear_memory_def)
qed

theorem clear_memory_resets_witness:
  "(2 :: nat) < length (pool_for ''confidential_info'')
   \<and> pool_for ''confidential_info'' ! 2 \<in> set (last5 (pool_for ''confidential_info''))
   \<and> detect_query_intent ''hello'' \<noteq> ''confidential_info''
   \<and> memory (clear_memory \<lparr>response_history = pool_for ''confidential_info'',
                            memory = [(''hi'', ''hello'')]\<rparr>) = []
   \<and> get_varied_decline ''confidential_info'' 2
        (response_history (clear_memory \<lparr>response_history = pool_for ''confidential_info'',
                                         memory = [(''hi'', ''hello'')]\<rparr>))
       = Inr (pool_for ''confidential_info'' ! 2, [pool_for ''confidential_info'' ! 2])
   \<and> memory (after (projr (chat
        \<lparr>input_guard = (\<lambda>q. Inr q), chain = saving_chain (\<lambda>m q. Inr ''Hi''),
         output_guard = (\<lambda>r. Inr r)\<rparr>
        \<lparr>coin = False, starter_pick = 0, decline_pick = 0\<rparr> ''hello''
        (clear_memory \<lparr>response_history = pool_for ''confidential_info'',
                       memory = [(''hi'', ''hello'')]\<rparr>))))
       = [(''hello'', ''Hi'')]
   \<and> sessions (snd (clear_session ''s1''
        \<lparr>sessions = [''s1'' \<mapsto> \<lparr>response_history = pool_for ''confidential_info'',
                                  memory = [(''hi'', ''hello'')]\<rparr>],
         message_counts = [''s1'' \<mapsto> 3]\<rparr>)) ''s1'' = None
   \<and> fst (projr (get_or_create_session True (\<lambda>pdf_path key. Inr ()) ''s1'' ''gsk_live''
        (snd (clear_session ''s1''
           \<lparr>sessions = [''s1'' \<mapsto> \<lparr>response_history = pool_for ''confidential_info'',
                                     memory = [(''hi'', ''hello'')]\<rparr>],
            message_counts = [''s1'' \<mapsto> 3]\<rparr>))))
       = \<lparr>response_history = [], memory = []\<rparr>"
proof -
  let ?a = "\<lparr>response_history = pool_for ''confidential_info'',
            memory = [(''hi'', ''hello'')]\<rparr>"
  let ?env = "\<lparr>input_guard = (\<lambda>q. Inr q), chain = saving_chain (\<lambda>m q. Inr ''Hi''),
         output_guard = (\<lambda>r. Inr r)\<rparr>"
  let ?m = "\<lparr>sessions = [''s1'' \<mapsto> ?a], message_counts = [''s1'' \<mapsto> 3]\<rparr>"
  obtain a b c d e where
    pool: "pool_for ''confidential_info'' = [a, b, c, d, e]"
    using confidential_pool by blast
  have len: "(2 :: nat) < length (pool_for ''confidential_info'')" by (simp add: pool)
  have recent: "pool_for ''confidential_info'' ! 2
                  \<in> set (last5 (pool_for ''confidential_info''))"
    by (simp add: pool last5_def)
  have intent: "detect_query_intent ''hello'' \<noteq> ''confidential_info''"
    by (simp add: detect_query_intent_def lower_def lower_char_def)
  have g: "input_guard ?env ''hello'' = Inr ''hello''" by simp
  have s: "sessions ?m ''s1'' = Some ?a" by simp
  have c: "snd (chain ?env [] ''hello'') = [(''hello'', ''Hi'')]"
    by (simp add: saving_chain_def)
  show ?thesis
    using len recent intent g s c
      clear_memory_resets [of ?a 2 "''confidential_info''" ?env "''hello''" "''hello''"
        "\<lparr>coin = False, starter_pick = 0, decline_pick = 0\<rparr>" ?m "''s1''"
        "\<lambda>pdf_path key. Inr ()" "''gsk_live''" True]
    by auto
qed

section \<open>The session store\<close>

lemma clear_unknown_session:
  assumes "sessions m sid = None"
  shows "clear_session sid m = (False, m)"
    and "clear_session_endpoint sid m
           = (Inl (HTTPException 404 (''Session '' @ sid @ '' not found'')), m)"
    and "delete_session_request sid m = (500, m)"
  using assms
  by (simp_all add: clear_session_def clear_session_endpoint_def delete_session_request_def
      answer_exception_def general_exception_handler_def)

text \<open>
  C10. For a session id that is not in the session store, \<^verbatim>\<open>clear_session\<close> returns
  False and the store is left as it was (the session map, with every session's assistant
  state, and every message count), and the route raises the not-found error with status
  404. The application does not report it: the handler registered for HTTPException
  returns a dictionary where a response is due, and the request is answered with status
  500.
\<close>

theorem delete_unknown_session_answered_500:
  "clear_session ''s2''
        \<lparr>sessions = [''s1'' \<mapsto> \<lparr>response_history = [], memory = [(''q'', ''a'')]\<rparr>],
         message_counts = [''s1'' \<mapsto> 1, ''s2'' \<mapsto> 0]\<rparr>
     = (False,
        \<lparr>sessions = [''s1'' \<mapsto> \<lparr>response_history = [], memory = [(''q'', ''a'')]\<rparr>],
         message_counts = [''s1'' \<mapsto> 1, ''s2'' \<mapsto> 0]\<rparr>)
   \<and> fst (clear_session_endpoint ''s2''
        \<lparr>sessions = [''s1'' \<mapsto> \<lparr>response_history = [], memory = [(''q'', ''a'')]\<rparr>],
         message_counts = [''s1'' \<mapsto> 1, ''s2'' \<mapsto> 0]\<rparr>)
     = Inl (HTTPException 404 ''Session s2 not found'')
   \<and> delete_session_request ''s2''
        \<lparr>sessions = [''s1'' \<mapsto> \<lparr>response_history = [], memory = [(''q'', ''a'')]\<rparr>],
         message_counts = [''s1'' \<mapsto> 1, ''s2'' \<mapsto> 0]\<rparr>
     = (500,
        \<lparr>sessions = [''s1'' \<mapsto> \<lparr>response_history = [], memory = [(''q'', ''a'')]\<rparr>],
         message_counts = [''s1'' \<mapsto> 1, ''s2'' \<mapsto> 0]\<rparr>)"
proof -
  let ?m = "\<lparr>sessions = [''s1'' \<mapsto> \<lparr>response_history = [], memory = [(''q'', ''a'')]\<rparr>],
             message_counts = [''s1'' \<mapsto> 1, ''s2'' \<mapsto> 0]\<rparr>"
  have h: "sessions ?m ''s2'' = None" by simp
  show ?thesis using clear_unknown_session [OF h] by simp
qed

section \<open>Start-up\<close>

text \<open>
  C3, as the claim states it, fails: with the hub validators unavailable and an API key
  present, initialization completes, and both guards are built without validators.
\<close>

theorem degraded_start_counterexample:
  "\<not> isl (initialize_chatbot False (\<lambda>pdf_path key. Inr ()) (Some ''gsk_live'') None
             ''refrigerator_catalog.pdf'')
   \<and> validators (input_guard_cfg (projr
        (initialize_chatbot False (\<lambda>pdf_path key. Inr ()) (Some ''gsk_live'') None
           ''refrigerator_catalog.pdf''))) = []
   \<and> validators (output_guard_cfg (projr
        (initialize_chatbot False (\<lambda>pdf_path key. Inr ()) (Some ''gsk_live'') None
           ''refrigerator_catalog.pdf''))) = []"
  by (simp add: initialize_chatbot_def get_api_key_from_env_def SecureSalesAssistant_init_def
      setup_guardrails_def)

text \<open>
  C3, amended. If no API key is passed and the environment variable is unset or empty,
  initialization fails with a ValueError, before anything is built. If the hub
  validators are unavailable, initialization does not fail on that account:
  \<^verbatim>\<open>setup_guardrails\<close> returns two guards without validators, and the assistant is built
  with them whenever the key is present and the rest of the construction succeeds.
\<close>

theorem start_fails_without_key_only:
  "(api_key_arg = None \<and> (GROQ_API_KEY = None \<or> GROQ_API_KEY = Some []) \<longrightarrow>
      (\<exists>msg. initialize_chatbot hub build GROQ_API_KEY api_key_arg pdf_path
                = Inl (ValueError msg)))
   \<and> validators (fst (setup_guardrails False)) = []
   \<and> validators (snd (setup_guardrails False)) = []
   \<and> (build pdf_path key = Inr () \<longrightarrow>
        (\<exists>b. initialize_chatbot False build GROQ_API_KEY (Some key) pdf_path = Inr b
             \<and> validators (input_guard_cfg b) = []
             \<and> validators (output_guard_cfg b) = []))"
  by (auto simp add: initialize_chatbot_def get_api_key_from_env_def
      SecureSalesAssistant_init_def setup_guardrails_def)

theorem start_fails_without_key_only_witness:
  "isl (initialize_chatbot True (\<lambda>pdf_path key. Inr ()) None None ''refrigerator_catalog.pdf'')
   \<and> isl (initialize_chatbot True (\<lambda>pdf_path key. Inr ()) (Some []) None
            ''refrigerator_catalog.pdf'')
   \<and> \<not> isl (initialize_chatbot False (\<lambda>pdf_path key. Inr ()) None (Some ''gsk_live'')
              ''refrigerator_catalog.pdf'')"
  using start_fails_without_key_only [of None None True "\<lambda>pdf_path key. Inr ()"
      "''refrigerator_catalog.pdf''" "''gsk_live''"]
    start_fails_without_key_only [of None "Some []" True "\<lambda>pdf_path key. Inr ()"
      "''refrigerator_catalog.pdf''" "''gsk_live''"]
  by auto

end
